theory Spec2Isabelle
  imports Main "HOL-Library.AList"
begin

section \<open>Values and errors\<close>

text \<open>
  JSON values as JavaScript holds them. An object is the list of its own
  properties in insertion order; a well-formed object has no key twice.
\<close>

datatype jsval =
    JNull
  | JBool bool
  | JNum int
  | JStr string
  | JArr "jsval list"
  | JObj "(string \<times> jsval) list"

type_synonym js_object = "(string \<times> jsval) list"

text \<open>\<open>obj[k] = v\<close>: an existing property keeps its place, a new one goes last.\<close>

definition obj_set :: "string \<Rightarrow> jsval \<Rightarrow> js_object \<Rightarrow> js_object" where
  "obj_set k v obj = AList.update k v obj"

text \<open>
  The spread \<open>{ ...src }\<close> into an object under construction: every own
  property of \<open>src\<close> is set on the target, in order.
\<close>

definition obj_spread :: "js_object \<Rightarrow> js_object \<Rightarrow> js_object" where
  "obj_spread src target = fold (\<lambda>(k, v) obj. obj_set k v obj) src target"

text \<open>
  Whatever \<open>init\<close> can reject with. \<open>AlreadyInitialized\<close> is the
  \<open>Error('[INIT] ... has already initialized.')\<close> of line 110; \<open>TypeError\<close> is a
  property read on \<open>null\<close>; \<open>ENOENT\<close>, \<open>EACCES\<close> and \<open>SyntaxError\<close> come from the
  file system calls; \<open>ProviderError\<close> is whatever a provider rejects with.
\<close>

datatype error =
    AlreadyInitialized
  | TypeError
  | ENOENT
  | EACCES
  | SyntaxError
  | ProviderError string

section \<open>The schema tree\<close>

text \<open>
  Modelled from the spec: the class \<open>SchemaFolder\<close> (required from
  \<open>./SchemaFolder\<close>) and its pieces are not among the sources. The spec gives the
  contract the gateway needs: a folder is an ordered mapping of name to child
  node (folder or piece); a piece has a declared type, a default value and a
  backend column-type string; \<open>defaults\<close> is the recursive mapping of name to
  each child's default value; \<open>sqlSchema\<close> is the ordered sequence of column
  definitions, one per piece reachable in the subtree, recursively flattened.
  The definition file describes the tree declaratively (folder and piece
  nesting, types, defaults), so a definition is represented by the tree it
  describes, and building the root from a definition yields that tree.
\<close>

record schema_piece =
  ptype :: string
  pdefault :: jsval
  psql :: string

datatype 'f schema_child = Piece schema_piece | Folder 'f

datatype schema_folder = SchemaFolder "(string \<times> schema_folder schema_child) list"

type_synonym schema_definition = schema_folder

text \<open>A column definition is the pair \<open>[name, column type]\<close>.\<close>

type_synonym column = "string \<times> string"

text \<open>
  Modelled from the spec: the constructor of \<open>SchemaFolder\<close> is not among the
  sources. \<open>new SchemaFolder(client, gateway, object, null, '')\<close> builds the root
  of the schema tree from the effective definition.
\<close>

definition SchemaFolder_new :: "schema_definition \<Rightarrow> schema_folder" where
  "SchemaFolder_new object = object"

text \<open>
  Modelled from the spec: the getter \<open>sqlSchema\<close> of \<open>SchemaFolder\<close> is not among
  the sources. It is the ordered sequence of column definitions, one per piece
  reachable in the subtree, recursively flattened.
\<close>

fun SchemaFolder_sqlSchema :: "schema_folder \<Rightarrow> column list" where
  "SchemaFolder_sqlSchema (SchemaFolder kids) =
     concat (map (\<lambda>(key, child). case child of
                     Piece p \<Rightarrow> [(key, psql p)]
                   | Folder f \<Rightarrow> SchemaFolder_sqlSchema f) kids)"

text \<open>
  Modelled from the spec: the property \<open>defaults\<close> of \<open>SchemaFolder\<close> is not among
  the sources. It is the recursive mapping of name to each child's default
  value, an object whose keys are set in declaration order.
\<close>

fun SchemaFolder_defaults :: "schema_folder \<Rightarrow> js_object" where
  "SchemaFolder_defaults (SchemaFolder kids) =
     fold (\<lambda>(key, child) obj. case child of
               Piece p \<Rightarrow> obj_set key (pdefault p) obj
             | Folder f \<Rightarrow> obj_set key (JObj (SchemaFolder_defaults f)) obj) kids []"

text \<open>
  The leaf pieces of a tree with their names, in declaration order, and their
  number: what the flattened column list is measured against.
\<close>

fun pieces :: "schema_folder \<Rightarrow> (string \<times> schema_piece) list" where
  "pieces (SchemaFolder kids) =
     concat (map (\<lambda>(key, child). case child of
                     Piece p \<Rightarrow> [(key, p)]
                   | Folder f \<Rightarrow> pieces f) kids)"

fun count_pieces :: "schema_folder \<Rightarrow> nat" where
  "count_pieces (SchemaFolder kids) =
     sum_list (map (\<lambda>(key, child). case child of
                       Piece p \<Rightarrow> 1
                     | Folder f \<Rightarrow> count_pieces f) kids)"

section \<open>The environment of a gateway\<close>

text \<open>
  A provider answers \<open>hasTable(name)\<close> and \<open>createTable(name, columns)\<close>; either
  call may reject. Nothing is assumed about the answers.
\<close>

record provider =
  hasTable :: "string \<Rightarrow> error + bool"
  createTable :: "string \<Rightarrow> column list \<Rightarrow> error + unit"

text \<open>
  What a file holds, as \<open>readJSON\<close> sees it: content that parses to a
  definition, or content that does not parse.
\<close>

datatype file_content = Parsable schema_definition | Unparsable

text \<open>The calls made on the file system and on providers, in the order made.\<close>

datatype call =
    EnsureDir string
  | ReadJSON string
  | OutputJSONAtomic string schema_definition
  | HasTable string string
  | CreateTable string string "column list"

text \<open>
  The world outside the gateway: the directories and files that exist, the
  paths at which creating a directory or writing a file is refused, the
  paths at which reading a file is refused (no permission to read, an I/O
  error), the client's provider registry (\<open>client.providers\<close>), and the log
  of calls.
\<close>

record world =
  dirs :: "string set"
  files :: "string \<rightharpoonup> file_content"
  denied :: "string set"
  unreadable :: "string set"
  providers :: "string \<rightharpoonup> provider"
  calls :: "call list"

text \<open>The part of the client the constructor reads.\<close>

record client =
  clientBaseDir :: string
  options_providers_default :: string

text \<open>\<open>fs.ensureDir(path)\<close>: nothing to do for an existing directory.\<close>

definition ensureDir :: "string \<Rightarrow> world \<Rightarrow> (error + unit) \<times> world" where
  "ensureDir path w =
     (let w1 = w\<lparr>calls := calls w @ [EnsureDir path]\<rparr> in
      if path \<in> dirs w1 then (Inr (), w1)
      else if path \<in> denied w1 then (Inl EACCES, w1)
      else (Inr (), w1\<lparr>dirs := insert path (dirs w1)\<rparr>))"

text \<open>
  \<open>fs.readJSON(path)\<close>: rejects for a missing file, for a file whose read is
  refused, whatever it holds, and for unparsable content.
\<close>

definition readJSON :: "string \<Rightarrow> world \<Rightarrow> (error + schema_definition) \<times> world" where
  "readJSON path w =
     (let w1 = w\<lparr>calls := calls w @ [ReadJSON path]\<rparr> in
      case files w1 path of
        None \<Rightarrow> (Inl ENOENT, w1)
      | Some content \<Rightarrow>
          if path \<in> unreadable w1 then (Inl EACCES, w1)
          else (case content of
                  Unparsable \<Rightarrow> (Inl SyntaxError, w1)
                | Parsable object \<Rightarrow> (Inr object, w1)))"

text \<open>
  \<open>fs.outputJSONAtomic(path, object)\<close>: the file holds the whole object
  afterwards, or the call rejects and the file is as before.
\<close>

definition outputJSONAtomic :: "string \<Rightarrow> schema_definition \<Rightarrow> world \<Rightarrow> (error + unit) \<times> world" where
  "outputJSONAtomic path object w =
     (let w1 = w\<lparr>calls := calls w @ [OutputJSONAtomic path object]\<rparr> in
      if path \<in> denied w1 then (Inl EACCES, w1)
      else (Inr (), w1\<lparr>files := (files w1)(path \<mapsto> Parsable object)\<rparr>))"

text \<open>\<open>path.resolve(dir, name)\<close> for a plain name below a directory.\<close>

definition resolve :: "string \<Rightarrow> string \<Rightarrow> string" where
  "resolve dir name = dir @ ''/'' @ name"

section \<open>GatewayStorage\<close>

record gateway =
  type :: string
  providerName :: string
  baseDir :: string
  filePath :: string
  schema :: "schema_folder option"
  ready :: bool

text \<open>
  The constructor (lines 15 to 72). \<open>provider || default\<close> takes the default
  for a missing and for an empty name.
\<close>

definition GatewayStorage_new :: "client \<Rightarrow> string \<Rightarrow> string option \<Rightarrow> gateway" where
  "GatewayStorage_new c ty prov =
     (let bd = resolve (clientBaseDir c) ''bwd'' in
      \<lparr>type = ty,
       providerName = (case prov of
                         None \<Rightarrow> options_providers_default c
                       | Some n \<Rightarrow> if n = [] then options_providers_default c else n),
       baseDir = bd,
       filePath = resolve bd (ty @ ''_Schema.json''),
       schema = None,
       ready = False\<rparr>)"

text \<open>The getter \<open>sqlSchema\<close> (line 81); reading it with \<open>schema\<close> null throws.\<close>

definition sqlSchema :: "gateway \<Rightarrow> error + column list" where
  "sqlSchema g =
     (case schema g of
        None \<Rightarrow> Inl TypeError
      | Some s \<Rightarrow> Inr ((''id'', ''VARCHAR(19) NOT NULL UNIQUE PRIMARY KEY'') # SchemaFolder_sqlSchema s))"

text \<open>
  The getter \<open>provider\<close> (line 91): \<open>client.providers.get(providerName) || null\<close>,
  with \<open>None\<close> for \<open>null\<close>.
\<close>

definition provider :: "gateway \<Rightarrow> world \<Rightarrow> provider option" where
  "provider g w =
     (case providers w (providerName g) of
        Some p \<Rightarrow> Some p
      | None \<Rightarrow> None)"

text \<open>The getter \<open>defaults\<close> (line 101): \<open>{ ...this.schema.defaults, default: true }\<close>.\<close>

definition defaults :: "gateway \<Rightarrow> error + js_object" where
  "defaults g =
     (case schema g of
        None \<Rightarrow> Inl TypeError
      | Some s \<Rightarrow> Inr (obj_set ''default'' (JBool True) (obj_spread (SchemaFolder_defaults s) [])))"

text \<open>
  \<open>initSchema\<close> (lines 134 to 140). A rejected \<open>readJSON\<close> is caught, whatever its
  reason, and answered by writing the default; a rejected \<open>ensureDir\<close> or
  \<open>outputJSONAtomic\<close> rejects \<open>initSchema\<close>.
\<close>

definition initSchema ::
  "schema_definition \<Rightarrow> gateway \<Rightarrow> world \<Rightarrow> (error + schema_folder) \<times> gateway \<times> world" where
  "initSchema defaultSchema g w =
     (case ensureDir (baseDir g) w of
        (Inl e, w1) \<Rightarrow> (Inl e, g, w1)
      | (Inr _, w1) \<Rightarrow>
          (case readJSON (filePath g) w1 of
             (Inr object, w2) \<Rightarrow>
               (Inr (SchemaFolder_new object), g\<lparr>schema := Some (SchemaFolder_new object)\<rparr>, w2)
           | (Inl _, w2) \<Rightarrow>
               (case outputJSONAtomic (filePath g) defaultSchema w2 of
                  (Inl e, w3) \<Rightarrow> (Inl e, g, w3)
                | (Inr _, w3) \<Rightarrow>
                    (Inr (SchemaFolder_new defaultSchema),
                     g\<lparr>schema := Some (SchemaFolder_new defaultSchema)\<rparr>, w3))))"

text \<open>
  \<open>initTable\<close> (lines 122 to 125). \<open>this.provider\<close> is read anew for each of the
  two calls, and the arguments of \<open>createTable\<close> are evaluated before the call.
\<close>

definition initTable :: "gateway \<Rightarrow> world \<Rightarrow> (error + unit) \<times> gateway \<times> world" where
  "initTable g w =
     (case provider g w of
        None \<Rightarrow> (Inl TypeError, g, w)
      | Some p \<Rightarrow>
          (let w1 = w\<lparr>calls := calls w @ [HasTable (providerName g) (type g)]\<rparr> in
           case hasTable p (type g) of
             Inl e \<Rightarrow> (Inl e, g, w1)
           | Inr True \<Rightarrow> (Inr (), g, w1)
           | Inr False \<Rightarrow>
               (case provider g w1 of
                  None \<Rightarrow> (Inl TypeError, g, w1)
                | Some p' \<Rightarrow>
                    (case sqlSchema g of
                       Inl e \<Rightarrow> (Inl e, g, w1)
                     | Inr columns \<Rightarrow>
                         (let w2 = w1\<lparr>calls := calls w1 @
                                     [CreateTable (providerName g) (type g) columns]\<rparr> in
                          case createTable p' (type g) columns of
                            Inl e \<Rightarrow> (Inl e, g, w2)
                          | Inr _ \<Rightarrow> (Inr (), g, w2))))))"

text \<open>\<open>init\<close> (lines 109 to 115).\<close>

definition init :: "schema_definition \<Rightarrow> gateway \<Rightarrow> world \<Rightarrow> (error + unit) \<times> gateway \<times> world" where
  "init defaultSchema g w =
     (if ready g then (Inl AlreadyInitialized, g, w)
      else
        (let g1 = g\<lparr>ready := True\<rparr> in
         case initSchema defaultSchema g1 w of
           (Inl e, g2, w2) \<Rightarrow> (Inl e, g2, w2)
         | (Inr _, g2, w2) \<Rightarrow> initTable g2 w2))"

text \<open>
  The gateway as it stands at the points of one call of \<open>init\<close>: on entry, at
  the first \<open>await\<close> (the guard passed), after \<open>initSchema\<close> has settled, and
  after \<open>initTable\<close> has settled. The last one is the gateway \<open>init\<close> leaves.
\<close>

definition init_states :: "schema_definition \<Rightarrow> gateway \<Rightarrow> world \<Rightarrow> gateway list" where
  "init_states defaultSchema g w =
     (if ready g then [g]
      else
        (let g1 = g\<lparr>ready := True\<rparr> in
         case initSchema defaultSchema g1 w of
           (Inl e, g2, w2) \<Rightarrow> [g, g1, g2]
         | (Inr _, g2, w2) \<Rightarrow> [g, g1, g2, fst (snd (initTable g2 w2))]))"

section \<open>A concrete scenario\<close>

text \<open>
  The domain \<open>guilds\<close> with the default schema
  \<open>{ prefix: { type: "string", default: "!" } }\<close>, a provider \<open>json\<close> that has no
  table yet, and five file systems: an empty one, one whose definition file
  is corrupt, one whose definition file is valid, one whose definition file
  is valid and cannot be read, and one that refuses to create the base
  directory.
\<close>

definition guilds_schema :: schema_definition where
  "guilds_schema =
     SchemaFolder [(''prefix'', Piece \<lparr>ptype = ''string'', pdefault = JStr ''!'', psql = ''TEXT''\<rparr>)]"

definition nested_schema :: schema_definition where
  "nested_schema =
     SchemaFolder
       [(''prefix'', Piece \<lparr>ptype = ''string'', pdefault = JStr ''!'', psql = ''TEXT''\<rparr>),
        (''roles'', Folder (SchemaFolder
           [(''admin'', Piece \<lparr>ptype = ''role'', pdefault = JNull, psql = ''VARCHAR(19)''\<rparr>),
            (''default'', Piece \<lparr>ptype = ''role'', pdefault = JStr ''0'', psql = ''VARCHAR(19)''\<rparr>)])),
        (''default'', Piece \<lparr>ptype = ''boolean'', pdefault = JBool False, psql = ''BOOLEAN''\<rparr>)]"

definition example_client :: client where
  "example_client = \<lparr>clientBaseDir = ''/app'', options_providers_default = ''json''\<rparr>"

definition guilds_gateway :: gateway where
  "guilds_gateway = GatewayStorage_new example_client ''guilds'' None"

definition fresh_provider :: provider where
  "fresh_provider = \<lparr>hasTable = (\<lambda>name. Inr False), createTable = (\<lambda>name columns. Inr ())\<rparr>"

definition empty_world :: world where
  "empty_world =
     \<lparr>dirs = {}, files = Map.empty, denied = {}, unreadable = {},
      providers = [''json'' \<mapsto> fresh_provider], calls = []\<rparr>"

definition corrupt_world :: world where
  "corrupt_world =
     empty_world\<lparr>dirs := {''/app/bwd''},
                 files := [''/app/bwd/guilds_Schema.json'' \<mapsto> Unparsable]\<rparr>"

definition populated_world :: world where
  "populated_world =
     empty_world\<lparr>dirs := {''/app/bwd''},
                 files := [''/app/bwd/guilds_Schema.json'' \<mapsto> Parsable nested_schema]\<rparr>"

definition unreadable_world :: world where
  "unreadable_world = populated_world\<lparr>unreadable := {''/app/bwd/guilds_Schema.json''}\<rparr>"

definition readonly_world :: world where
  "readonly_world = empty_world\<lparr>denied := {''/app/bwd''}\<rparr>"

section \<open>Objects\<close>

lemmas scenario_defs =
  guilds_schema_def nested_schema_def example_client_def guilds_gateway_def fresh_provider_def
  empty_world_def corrupt_world_def populated_world_def unreadable_world_def
  readonly_world_def
  GatewayStorage_new_def resolve_def

lemmas effect_defs =
  init_def init_states_def initSchema_def initTable_def ensureDir_def readJSON_def
  outputJSONAtomic_def provider_def sqlSchema_def SchemaFolder_new_def Let_def

lemma obj_set_fresh: "k \<notin> fst ` set obj \<Longrightarrow> obj_set k v obj = obj @ [(k, v)]"
  by (induction obj) (auto simp: obj_set_def)

lemma obj_set_distinct: "distinct (map fst obj) \<Longrightarrow> distinct (map fst (obj_set k v obj))"
  by (simp add: obj_set_def distinct_update)

lemma obj_set_lookup: "map_of (obj_set k v obj) = (map_of obj)(k \<mapsto> v)"
  by (simp add: obj_set_def update_conv')

lemma obj_set_keys_present: "k \<in> fst ` set obj \<Longrightarrow> map fst (obj_set k v obj) = map fst obj"
  by (induction obj) (auto simp: obj_set_def)

text \<open>Spreading a well-formed object into an object that shares no key with it appends it.\<close>

lemma obj_spread_distinct:
  "distinct (map fst (target @ src)) \<Longrightarrow> obj_spread src target = target @ src"
proof (induction src arbitrary: target)
  case Nil
  then show ?case by (simp add: obj_spread_def)
next
  case (Cons kv src)
  obtain k v where kv: "kv = (k, v)" by (cases kv)
  from Cons.prems kv have fresh: "k \<notin> fst ` set target" by auto
  from Cons.prems kv have "distinct (map fst ((target @ [(k, v)]) @ src))" by simp
  then have "obj_spread src (target @ [(k, v)]) = (target @ [(k, v)]) @ src"
    by (rule Cons.IH)
  with fresh kv show ?case by (simp add: obj_spread_def obj_set_fresh)
qed

lemma fold_obj_set_distinct:
  assumes "\<And>x obj. \<exists>k v. f x obj = obj_set k v obj"
  shows "distinct (map fst acc) \<Longrightarrow> distinct (map fst (fold f xs acc))"
proof (induction xs arbitrary: acc)
  case Nil
  then show ?case by simp
next
  case (Cons x xs)
  obtain k v where "f x acc = obj_set k v acc" using assms by blast
  with Cons.prems have "distinct (map fst (f x acc))" by (simp add: obj_set_distinct)
  then show ?case using Cons.IH by simp
qed

section \<open>The schema tree's accessors\<close>

lemma SchemaFolder_defaults_distinct: "distinct (map fst (SchemaFolder_defaults s))"
proof (cases s)
  case (SchemaFolder kids)
  have "distinct (map fst (fold (\<lambda>(key, child) obj. case child of
               Piece p \<Rightarrow> obj_set key (pdefault p) obj
             | Folder f \<Rightarrow> obj_set key (JObj (SchemaFolder_defaults f)) obj) kids []))"
    by (rule fold_obj_set_distinct) (auto split: prod.splits schema_child.splits)
  with SchemaFolder show ?thesis by simp
qed

lemma defaults_eq:
  "schema g = Some s \<Longrightarrow>
     defaults g = Inr (obj_set ''default'' (JBool True) (SchemaFolder_defaults s))"
  using obj_spread_distinct [of "[]" "SchemaFolder_defaults s"]
  by (simp add: defaults_def SchemaFolder_defaults_distinct)

lemma sqlSchema_pieces:
  "SchemaFolder_sqlSchema s = map (\<lambda>(key, p). (key, psql p)) (pieces s)"
  by (induction s rule: SchemaFolder_sqlSchema.induct)
     (auto simp: map_concat intro!: arg_cong[where f=concat] split: schema_child.splits)

lemma length_pieces: "length (pieces s) = count_pieces s"
  by (induction s rule: pieces.induct)
     (auto simp: length_concat comp_def intro!: arg_cong[where f=sum_list]
           split: schema_child.splits)

section \<open>What the phases of init do to the gateway\<close>

lemma initSchema_ready: "ready (fst (snd (initSchema d g w))) = ready g"
  by (simp add: initSchema_def split: prod.splits sum.splits)

lemma initSchema_ok_gateway:
  "initSchema d g w = (Inr s, g', w') \<Longrightarrow> g' = g\<lparr>schema := Some s\<rparr>"
  by (auto simp add: initSchema_def split: prod.splits sum.splits)

lemma initSchema_providers: "providers (snd (snd (initSchema d g w))) = providers w"
  by (simp add: initSchema_def ensureDir_def readJSON_def outputJSONAtomic_def Let_def
      split: prod.splits sum.splits option.splits file_content.splits)

lemma initTable_gateway: "fst (snd (initTable g w)) = g"
  by (simp add: initTable_def Let_def split: option.splits sum.splits bool.splits)

lemma init_states_last: "last (init_states d g w) = fst (snd (init d g w))"
  by (simp add: init_states_def init_def Let_def initTable_gateway split: prod.splits sum.splits)

lemma init_states_tl_ready: "g' \<in> set (tl (init_states d g w)) \<Longrightarrow> ready g'"
proof (cases "ready g")
  case True
  assume "g' \<in> set (tl (init_states d g w))"
  with True show ?thesis by (simp add: init_states_def)
next
  case False
  assume mem: "g' \<in> set (tl (init_states d g w))"
  obtain r g2 w2 where s: "initSchema d (g\<lparr>ready := True\<rparr>) w = (r, g2, w2)"
    by (cases "initSchema d (g\<lparr>ready := True\<rparr>) w") auto
  have "ready g2" using initSchema_ready [of d "g\<lparr>ready := True\<rparr>" w] s by simp
  with mem False s show ?thesis
    by (cases r) (auto simp: init_states_def Let_def initTable_gateway)
qed

lemma init_leaves_ready: "ready (fst (snd (init d g w)))"
proof (cases "ready g")
  case True
  then show ?thesis by (simp add: init_def)
next
  case False
  obtain r g2 w2 where s: "initSchema d (g\<lparr>ready := True\<rparr>) w = (r, g2, w2)"
    by (cases "initSchema d (g\<lparr>ready := True\<rparr>) w") auto
  have "ready g2" using initSchema_ready [of d "g\<lparr>ready := True\<rparr>" w] s by simp
  with False s show ?thesis
    by (cases r) (auto simp: init_def Let_def initTable_gateway)
qed

lemma init_when_ready: "ready g \<Longrightarrow> init d g w = (Inl AlreadyInitialized, g, w)"
  by (simp add: init_def)

lemma init_states_inv:
  assumes inv: "schema g \<noteq> None \<longrightarrow> ready g" and mem: "g' \<in> set (init_states d g w)"
  shows "schema g' \<noteq> None \<longrightarrow> ready g'"
proof (cases "g' = g")
  case True
  with inv show ?thesis by simp
next
  case False
  have "g' \<in> set (tl (init_states d g w))"
    using mem False
    by (cases "init_states d g w")
       (auto simp: init_states_def Let_def split: if_splits prod.splits sum.splits)
  then show ?thesis by (simp add: init_states_tl_ready)
qed

lemma init_ok_schema:
  assumes "\<not> ready g" and "init d g w = (Inr u, g', w')"
  shows "schema g' \<noteq> None \<and> ready g'"
proof -
  obtain r g2 w2 where s: "initSchema d (g\<lparr>ready := True\<rparr>) w = (r, g2, w2)"
    by (cases "initSchema d (g\<lparr>ready := True\<rparr>) w") auto
  show ?thesis
  proof (cases r)
    case (Inl e)
    with assms s show ?thesis by (simp add: init_def Let_def)
  next
    case (Inr t)
    with s have g2: "g2 = g\<lparr>ready := True, schema := Some t\<rparr>"
      using initSchema_ok_gateway by blast
    from assms s Inr have "g' = fst (snd (initTable g2 w2))"
      by (simp add: init_def Let_def)
    with g2 show ?thesis by (simp add: initTable_gateway)
  qed
qed

section \<open>The two bootstraps\<close>

lemma initSchema_unreadable_kept: "unreadable (snd (snd (initSchema d g w))) = unreadable w"
  by (simp add: initSchema_def ensureDir_def readJSON_def outputJSONAtomic_def Let_def
      split: prod.splits sum.splits option.splits file_content.splits)

lemma initSchema_parsable:
  assumes "files w (filePath g) = Some (Parsable d0)" and "filePath g \<notin> unreadable w"
  shows "initSchema d g w =
     (if baseDir g \<in> dirs w \<or> baseDir g \<notin> denied w
      then (Inr (SchemaFolder_new d0), g\<lparr>schema := Some (SchemaFolder_new d0)\<rparr>,
            w\<lparr>dirs := insert (baseDir g) (dirs w),
              calls := calls w @ [EnsureDir (baseDir g), ReadJSON (filePath g)]\<rparr>)
      else (Inl EACCES, g, w\<lparr>calls := calls w @ [EnsureDir (baseDir g)]\<rparr>))"
  using assms by (auto simp: initSchema_def ensureDir_def readJSON_def Let_def insert_absorb)

lemma initSchema_caught:
  assumes "files w (filePath g) = None \<or> files w (filePath g) = Some Unparsable \<or>
           filePath g \<in> unreadable w"
  shows "initSchema d g w =
     (if baseDir g \<in> dirs w \<or> baseDir g \<notin> denied w
      then if filePath g \<in> denied w
           then (Inl EACCES, g,
                 w\<lparr>dirs := insert (baseDir g) (dirs w),
                   calls := calls w @ [EnsureDir (baseDir g), ReadJSON (filePath g),
                                       OutputJSONAtomic (filePath g) d]\<rparr>)
           else (Inr (SchemaFolder_new d), g\<lparr>schema := Some (SchemaFolder_new d)\<rparr>,
                 w\<lparr>dirs := insert (baseDir g) (dirs w),
                   files := (files w)(filePath g \<mapsto> Parsable d),
                   calls := calls w @ [EnsureDir (baseDir g), ReadJSON (filePath g),
                                       OutputJSONAtomic (filePath g) d]\<rparr>)
      else (Inl EACCES, g, w\<lparr>calls := calls w @ [EnsureDir (baseDir g)]\<rparr>))"
  using assms
  by (auto simp: initSchema_def ensureDir_def readJSON_def outputJSONAtomic_def Let_def insert_absorb
           split: option.splits)

lemma initSchema_ok_file:
  assumes "initSchema d g w = (Inr s, g1, w1)"
  shows "files w1 (filePath g1) = Some (Parsable s) \<and> baseDir g1 \<in> dirs w1"
proof (cases "files w (filePath g) = None \<or> files w (filePath g) = Some Unparsable \<or>
              filePath g \<in> unreadable w")
  case True
  with assms show ?thesis
    by (auto simp: initSchema_caught SchemaFolder_new_def split: if_splits)
next
  case False
  then obtain d0 where f: "files w (filePath g) = Some (Parsable d0)"
    by (cases "files w (filePath g)") (auto intro: file_content.exhaust)
  from False have r: "filePath g \<notin> unreadable w" by simp
  from assms f show ?thesis
    by (auto simp: initSchema_parsable [OF f r] SchemaFolder_new_def split: if_splits)
qed

lemma initTable_calls:
  assumes "schema g = Some s" "providers w (providerName g) = Some p"
    "hasTable p (type g) = Inr b"
  shows "calls (snd (snd (initTable g w))) =
           calls w @ HasTable (providerName g) (type g) #
             (if b then []
              else [CreateTable (providerName g) (type g)
                      ((''id'', ''VARCHAR(19) NOT NULL UNIQUE PRIMARY KEY'') # SchemaFolder_sqlSchema s)])"
  using assms
  by (simp add: initTable_def provider_def sqlSchema_def Let_def split: sum.splits)

text \<open>The scenario, evaluated: \<open>init\<close> succeeds on the empty file system and is
  rejected where the base directory cannot be created.\<close>

lemma init_empty_world_ok: "fst (init guilds_schema guilds_gateway empty_world) = Inr ()"
  by (simp add: effect_defs scenario_defs)

lemma init_readonly_world_fails:
  "fst (init guilds_schema guilds_gateway readonly_world) = Inl EACCES"
  by (simp add: effect_defs scenario_defs)

lemma guilds_gateway_fresh: "schema guilds_gateway = None \<and> \<not> ready guilds_gateway"
  by (simp add: scenario_defs Let_def)

section \<open>The claims\<close>

text \<open>
  C1, as the code has it. \<open>init\<close> sets \<open>ready\<close> to true as soon as the guard has
  passed, before the schema bootstrap and the storage bootstrap run: \<open>ready\<close>
  is true at the first \<open>await\<close>, at every later point of the call, and after
  \<open>init\<close> has returned or rejected, whether the two effects succeeded or one of
  them failed.
\<close>

theorem init_ready_at_entry:
  "\<not> ready g \<Longrightarrow>
     init_states d g w ! 1 = g\<lparr>ready := True\<rparr> \<and>
     (\<forall>g' \<in> set (tl (init_states d g w)). ready g') \<and>
     ready (fst (snd (init d g w)))"
  by (simp add: init_states_tl_ready init_leaves_ready)
     (simp add: init_states_def Let_def split: prod.splits sum.splits)

theorem init_ready_at_entry_witness:
  "\<not> ready guilds_gateway \<and>
   init_states guilds_schema guilds_gateway readonly_world ! 1 = guilds_gateway\<lparr>ready := True\<rparr> \<and>
   list_all ready (tl (init_states guilds_schema guilds_gateway readonly_world)) \<and>
   fst (init guilds_schema guilds_gateway readonly_world) = Inl EACCES \<and>
   ready (fst (snd (init guilds_schema guilds_gateway readonly_world)))"
proof -
  have nr: "\<not> ready guilds_gateway"
    by (simp add: guilds_gateway_fresh)
  show ?thesis
    using nr init_readonly_world_fails
      init_ready_at_entry [OF nr, of guilds_schema readonly_world]
    by (simp add: list_all_iff)
qed

text \<open>
  C1 as stated fails: where the base directory cannot be created, the schema
  bootstrap rejects and \<open>ready\<close> is true afterwards.
\<close>

theorem init_failure_leaves_ready_counterexample:
  "\<not> (isl (fst (init guilds_schema guilds_gateway readonly_world)) \<longrightarrow>
        \<not> ready (fst (snd (init guilds_schema guilds_gateway readonly_world))))"
  by (simp add: effect_defs scenario_defs)

text \<open>
  C2, as the code has it. A gateway is constructed with \<open>schema\<close> null and
  \<open>ready\<close> false; at every point of every call of \<open>init\<close>, a non-null \<open>schema\<close>
  implies that \<open>ready\<close> is true; and after \<open>init\<close> has succeeded, \<open>schema\<close> is
  non-null and \<open>ready\<close> is true. (The converse does not hold: \<open>ready\<close> is true
  with \<open>schema\<close> still null from the guard until the schema is built, and
  after a failed schema bootstrap.)
\<close>

theorem schema_implies_ready:
  "(schema (GatewayStorage_new c ty pn) = None \<and> \<not> ready (GatewayStorage_new c ty pn)) \<and>
   ((schema g \<noteq> None \<longrightarrow> ready g) \<longrightarrow>
      (\<forall>g' \<in> set (init_states d g w). schema g' \<noteq> None \<longrightarrow> ready g')) \<and>
   (\<not> ready g \<and> fst (init d g w) = Inr () \<longrightarrow>
      schema (fst (snd (init d g w))) \<noteq> None \<and> ready (fst (snd (init d g w))))"
proof -
  have a: "schema (GatewayStorage_new c ty pn) = None \<and> \<not> ready (GatewayStorage_new c ty pn)"
    by (simp add: GatewayStorage_new_def Let_def)
  have b: "(schema g \<noteq> None \<longrightarrow> ready g) \<longrightarrow>
      (\<forall>g' \<in> set (init_states d g w). schema g' \<noteq> None \<longrightarrow> ready g')"
    using init_states_inv by blast
  have c: "\<not> ready g \<and> fst (init d g w) = Inr () \<longrightarrow>
      schema (fst (snd (init d g w))) \<noteq> None \<and> ready (fst (snd (init d g w)))"
    using init_ok_schema [of g d w "()" "fst (snd (init d g w))" "snd (snd (init d g w))"]
    by (metis prod.collapse)
  from a b c show ?thesis by blast
qed

theorem schema_implies_ready_witness:
  "schema guilds_gateway = None \<and> \<not> ready guilds_gateway \<and>
   list_all (\<lambda>g'. schema g' \<noteq> None \<longrightarrow> ready g')
     (init_states guilds_schema guilds_gateway empty_world) \<and>
   fst (init guilds_schema guilds_gateway empty_world) = Inr () \<and>
   schema (fst (snd (init guilds_schema guilds_gateway empty_world))) \<noteq> None \<and>
   ready (fst (snd (init guilds_schema guilds_gateway empty_world)))"
  using guilds_gateway_fresh init_empty_world_ok
    schema_implies_ready [of example_client "''guilds''" None guilds_gateway
      guilds_schema empty_world]
  by (simp add: list_all_iff)

text \<open>
  C2 as stated fails: after \<open>init\<close> has failed in the schema bootstrap, \<open>ready\<close>
  is true and \<open>schema\<close> is null.
\<close>

theorem schema_iff_ready_counterexample:
  "\<not> (schema (fst (snd (init guilds_schema guilds_gateway readonly_world))) \<noteq> None \<longleftrightarrow>
        ready (fst (snd (init guilds_schema guilds_gateway readonly_world))))"
  by (simp add: effect_defs scenario_defs)

text \<open>
  C3. Once \<open>init\<close> has been invoked on a gateway, another invocation, be it
  while the first is still at one of its \<open>await\<close>s or after it has returned or
  rejected, and whatever the default schema and the world, rejects with the
  already-initialized error and leaves gateway and world as they are: the log
  of calls gains no file read or write and no \<open>hasTable\<close> or \<open>createTable\<close>.
\<close>

theorem init_twice_rejected:
  "(\<forall>g' \<in> set (tl (init_states d1 g w1)). init d2 g' w2 = (Inl AlreadyInitialized, g', w2)) \<and>
   init d2 (fst (snd (init d1 g w1))) w2 = (Inl AlreadyInitialized, fst (snd (init d1 g w1)), w2)"
  by (simp add: init_states_tl_ready init_leaves_ready init_when_ready)

theorem init_twice_rejected_witness:
  "length (init_states guilds_schema guilds_gateway empty_world) = 4 \<and>
   list_all (\<lambda>g'. init nested_schema g' (snd (snd (init guilds_schema guilds_gateway empty_world))) =
                    (Inl AlreadyInitialized, g', snd (snd (init guilds_schema guilds_gateway empty_world))))
     (tl (init_states guilds_schema guilds_gateway empty_world)) \<and>
   calls (snd (snd (init nested_schema (fst (snd (init guilds_schema guilds_gateway empty_world)))
                      (snd (snd (init guilds_schema guilds_gateway empty_world)))))) =
   calls (snd (snd (init guilds_schema guilds_gateway empty_world)))"
proof -
  have len: "length (init_states guilds_schema guilds_gateway empty_world) = 4"
    by (simp add: effect_defs scenario_defs)
  show ?thesis
    using len init_twice_rejected [of guilds_schema guilds_gateway empty_world nested_schema
        "snd (snd (init guilds_schema guilds_gateway empty_world))"]
    by (simp add: list_all_iff)
qed

text \<open>
  C4. For every schema tree, \<open>sqlSchema\<close> returns the identity column
  definition followed by exactly the tree's flattened column definitions, and
  these are one per leaf piece, named and typed after it, in declaration order.
\<close>

theorem sqlSchema_identity_then_pieces:
  "schema g = Some s \<Longrightarrow>
     sqlSchema g =
       Inr ((''id'', ''VARCHAR(19) NOT NULL UNIQUE PRIMARY KEY'') # SchemaFolder_sqlSchema s) \<and>
     SchemaFolder_sqlSchema s = map (\<lambda>(key, p). (key, psql p)) (pieces s) \<and>
     length (SchemaFolder_sqlSchema s) = count_pieces s"
  using length_pieces [of s] by (simp add: sqlSchema_def sqlSchema_pieces)

theorem sqlSchema_identity_then_pieces_witness:
  "schema (guilds_gateway\<lparr>schema := Some nested_schema\<rparr>) = Some nested_schema \<and>
   sqlSchema (guilds_gateway\<lparr>schema := Some nested_schema\<rparr>) =
     Inr [(''id'', ''VARCHAR(19) NOT NULL UNIQUE PRIMARY KEY''), (''prefix'', ''TEXT''),
          (''admin'', ''VARCHAR(19)''), (''default'', ''VARCHAR(19)''), (''default'', ''BOOLEAN'')] \<and>
   count_pieces nested_schema = 4"
  using sqlSchema_identity_then_pieces [of "guilds_gateway\<lparr>schema := Some nested_schema\<rparr>"
      nested_schema]
  by (simp add: nested_schema_def)

text \<open>
  C5. Where the definition file is absent or holds unparsable content, the
  schema bootstrap never rejects with the read's error (not found, or syntax
  error); the two cases are answered alike: where the base directory can be
  ensured and the file written, the default schema definition is written to
  the file path with the atomic write, the schema tree is built from it, and
  \<open>init\<close> goes on to the storage bootstrap with that tree.
\<close>

theorem initSchema_heals_absent_or_corrupt:
  assumes "files w (filePath g) = None \<or> files w (filePath g) = Some Unparsable"
  shows "fst (initSchema d g w) \<noteq> Inl ENOENT \<and> fst (initSchema d g w) \<noteq> Inl SyntaxError \<and>
     ((baseDir g \<in> dirs w \<or> baseDir g \<notin> denied w) \<and> filePath g \<notin> denied w \<longrightarrow>
        initSchema d g w =
          (Inr (SchemaFolder_new d), g\<lparr>schema := Some (SchemaFolder_new d)\<rparr>,
           w\<lparr>dirs := insert (baseDir g) (dirs w),
             files := (files w)(filePath g \<mapsto> Parsable d),
             calls := calls w @ [EnsureDir (baseDir g), ReadJSON (filePath g),
                                 OutputJSONAtomic (filePath g) d]\<rparr>) \<and>
        (\<not> ready g \<longrightarrow>
           init d g w =
             initTable (g\<lparr>ready := True, schema := Some (SchemaFolder_new d)\<rparr>)
               (w\<lparr>dirs := insert (baseDir g) (dirs w),
                  files := (files w)(filePath g \<mapsto> Parsable d),
                  calls := calls w @ [EnsureDir (baseDir g), ReadJSON (filePath g),
                                      OutputJSONAtomic (filePath g) d]\<rparr>)))"
proof -
  have g0: "files w (filePath g) = None \<or> files w (filePath g) = Some Unparsable \<or>
            filePath g \<in> unreadable w"
    using assms by blast
  have g1: "files w (filePath (g\<lparr>ready := True\<rparr>)) = None \<or>
            files w (filePath (g\<lparr>ready := True\<rparr>)) = Some Unparsable \<or>
            filePath (g\<lparr>ready := True\<rparr>) \<in> unreadable w"
    using assms by auto
  show ?thesis
    by (simp add: initSchema_caught [OF g0] init_def Let_def initSchema_caught [OF g1])
qed

theorem initSchema_heals_absent_or_corrupt_witness:
  "files corrupt_world (filePath guilds_gateway) = Some Unparsable \<and>
   initSchema guilds_schema guilds_gateway corrupt_world =
     (Inr guilds_schema, guilds_gateway\<lparr>schema := Some guilds_schema\<rparr>,
      corrupt_world\<lparr>files := [''/app/bwd/guilds_Schema.json'' \<mapsto> Parsable guilds_schema],
        calls := [EnsureDir ''/app/bwd'', ReadJSON ''/app/bwd/guilds_Schema.json'',
                  OutputJSONAtomic ''/app/bwd/guilds_Schema.json'' guilds_schema]\<rparr>) \<and>
   fst (init guilds_schema guilds_gateway corrupt_world) = Inr ()"
proof -
  have f: "files corrupt_world (filePath guilds_gateway) = None \<or>
           files corrupt_world (filePath guilds_gateway) = Some Unparsable"
    by (simp add: scenario_defs Let_def)
  have paths: "baseDir guilds_gateway = ''/app/bwd''"
    "filePath guilds_gateway = ''/app/bwd/guilds_Schema.json''"
    by (simp_all add: scenario_defs Let_def)
  have ok: "fst (init guilds_schema guilds_gateway corrupt_world) = Inr ()"
    by (simp add: effect_defs example_client_def guilds_gateway_def empty_world_def
        corrupt_world_def GatewayStorage_new_def resolve_def fresh_provider_def)
  show ?thesis
    using ok initSchema_heals_absent_or_corrupt [OF f, of guilds_schema]
    by (simp add: paths SchemaFolder_new_def corrupt_world_def empty_world_def)
qed

text \<open>
  C6. For an initialized gateway, \<open>defaults\<close> returns the schema tree's
  default-value mapping with the key \<open>default\<close> bound to \<open>true\<close>: for the schema
  with the one piece \<open>prefix\<close> defaulting to \<open>"!"\<close> it is
  \<open>{ prefix: "!", default: true }\<close>.
\<close>

theorem defaults_merges_flag:
  "schema g = Some s \<Longrightarrow>
     defaults g = Inr (obj_set ''default'' (JBool True) (SchemaFolder_defaults s)) \<and>
     map_of (obj_set ''default'' (JBool True) (SchemaFolder_defaults s)) =
       (map_of (SchemaFolder_defaults s))(''default'' \<mapsto> JBool True)"
  by (simp add: defaults_eq obj_set_lookup)

theorem defaults_merges_flag_witness:
  "schema (fst (snd (init guilds_schema guilds_gateway empty_world))) = Some guilds_schema \<and>
   defaults (fst (snd (init guilds_schema guilds_gateway empty_world))) =
     Inr [(''prefix'', JStr ''!''), (''default'', JBool True)]"
proof -
  have s: "schema (fst (snd (init guilds_schema guilds_gateway empty_world))) = Some guilds_schema"
    by (simp add: effect_defs example_client_def guilds_gateway_def empty_world_def
        GatewayStorage_new_def resolve_def fresh_provider_def)
  show ?thesis
    using s defaults_merges_flag [OF s]
    by (simp add: guilds_schema_def obj_set_def)
qed

text \<open>
  C7. Every access of \<open>provider\<close> looks \<open>providerName\<close> up in the registry as it is
  at that moment: a provider registered under the name after the gateway was
  constructed is what a later access returns, and for an unregistered name the
  accessor returns null (\<open>None\<close>), not an error.
\<close>

theorem provider_fresh_lookup:
  "provider g w = providers w (providerName g) \<and>
   provider g (w\<lparr>providers := (providers w)(providerName g \<mapsto> p)\<rparr>) = Some p \<and>
   (providers w (providerName g) = None \<longrightarrow> provider g w = None)"
  by (simp add: provider_def split: option.splits)

theorem provider_fresh_lookup_witness:
  "providers (empty_world\<lparr>providers := Map.empty\<rparr>) (providerName guilds_gateway) = None \<and>
   provider guilds_gateway (empty_world\<lparr>providers := Map.empty\<rparr>) = None \<and>
   provider guilds_gateway (empty_world\<lparr>providers := [''json'' \<mapsto> fresh_provider]\<rparr>) =
     Some fresh_provider"
  using provider_fresh_lookup [of guilds_gateway "empty_world\<lparr>providers := Map.empty\<rparr>" fresh_provider]
  by (simp add: scenario_defs Let_def)

text \<open>
  C8. When \<open>init\<close> reaches the storage bootstrap (the guard passed and the
  schema bootstrap succeeded) with the provider registered and \<open>hasTable(type)\<close>
  answering \<open>b\<close>, the calls it makes from there on are \<open>hasTable(type)\<close> first,
  followed by exactly one \<open>createTable(type, sqlSchema)\<close> if \<open>b\<close> is false and by
  nothing if \<open>b\<close> is true.
\<close>

theorem initTable_creates_once:
  assumes "\<not> ready g" and "initSchema d (g\<lparr>ready := True\<rparr>) w = (Inr s, g1, w1)"
    and "providers w (providerName g) = Some p" and "hasTable p (type g) = Inr b"
  shows "calls (snd (snd (init d g w))) =
           calls w1 @ HasTable (providerName g) (type g) #
             (if b then []
              else [CreateTable (providerName g) (type g)
                      ((''id'', ''VARCHAR(19) NOT NULL UNIQUE PRIMARY KEY'') # SchemaFolder_sqlSchema s)])"
proof -
  have g1: "g1 = g\<lparr>ready := True, schema := Some s\<rparr>"
    using assms(2) initSchema_ok_gateway by blast
  have "providers w1 = providers w"
    using initSchema_providers [of d "g\<lparr>ready := True\<rparr>" w] assms(2) by simp
  with assms(3) g1 have p: "providers w1 (providerName g1) = Some p" by simp
  from g1 have s: "schema g1 = Some s" by simp
  from assms(4) g1 have b: "hasTable p (type g1) = Inr b" by simp
  have "init d g w = initTable g1 w1"
    using assms(1,2) by (simp add: init_def Let_def)
  then show ?thesis
    using initTable_calls [OF s p b] g1 by simp
qed

theorem initTable_creates_once_witness:
  "\<not> ready guilds_gateway \<and>
   providers empty_world (providerName guilds_gateway) = Some fresh_provider \<and>
   hasTable fresh_provider (type guilds_gateway) = Inr False \<and>
   calls (snd (snd (init guilds_schema guilds_gateway empty_world))) =
     [EnsureDir ''/app/bwd'', ReadJSON ''/app/bwd/guilds_Schema.json'',
      OutputJSONAtomic ''/app/bwd/guilds_Schema.json'' guilds_schema,
      HasTable ''json'' ''guilds'',
      CreateTable ''json'' ''guilds''
        [(''id'', ''VARCHAR(19) NOT NULL UNIQUE PRIMARY KEY''), (''prefix'', ''TEXT'')]]"
proof -
  have nr: "\<not> ready guilds_gateway" by (simp add: guilds_gateway_fresh)
  have s: "initSchema guilds_schema (guilds_gateway\<lparr>ready := True\<rparr>) empty_world =
      (Inr guilds_schema, guilds_gateway\<lparr>ready := True, schema := Some guilds_schema\<rparr>,
       empty_world\<lparr>dirs := {''/app/bwd''},
         files := [''/app/bwd/guilds_Schema.json'' \<mapsto> Parsable guilds_schema],
         calls := [EnsureDir ''/app/bwd'', ReadJSON ''/app/bwd/guilds_Schema.json'',
                   OutputJSONAtomic ''/app/bwd/guilds_Schema.json'' guilds_schema]\<rparr>)"
    by (simp add: effect_defs example_client_def guilds_gateway_def empty_world_def
        GatewayStorage_new_def resolve_def)
  have p: "providers empty_world (providerName guilds_gateway) = Some fresh_provider"
    by (simp add: scenario_defs Let_def)
  have h: "hasTable fresh_provider (type guilds_gateway) = Inr False"
    by (simp add: fresh_provider_def)
  have ty: "type guilds_gateway = ''guilds''" "providerName guilds_gateway = ''json''"
    by (simp_all add: scenario_defs Let_def)
  show ?thesis
    using nr p h initTable_creates_once [OF nr s p h]
    by (simp add: ty guilds_schema_def)
qed

text \<open>
  C9, as the code has it. Where the definition file holds parsable content
  and the read delivers it, the schema bootstrap leaves the files as they are
  and makes no call but \<open>ensureDir\<close> and \<open>readJSON\<close>; with the base directory in
  place it builds the tree from the file's content and changes nothing but the
  log. In particular, where the file can be read, a schema bootstrap run again
  after a successful one, whatever default it is given, writes nothing and
  yields the same tree.
\<close>

theorem initSchema_keeps_valid_file:
  "(files w (filePath g) = Some (Parsable d0) \<and> filePath g \<notin> unreadable w \<longrightarrow>
      files (snd (snd (initSchema d g w))) = files w \<and>
      (\<forall>c \<in> set (drop (length (calls w)) (calls (snd (snd (initSchema d g w))))).
          c = EnsureDir (baseDir g) \<or> c = ReadJSON (filePath g)) \<and>
      (baseDir g \<in> dirs w \<longrightarrow>
         initSchema d g w =
           (Inr (SchemaFolder_new d0), g\<lparr>schema := Some (SchemaFolder_new d0)\<rparr>,
            w\<lparr>calls := calls w @ [EnsureDir (baseDir g), ReadJSON (filePath g)]\<rparr>))) \<and>
   (initSchema d1 g0 w0 = (Inr s, g1, w1) \<and> filePath g0 \<notin> unreadable w0 \<longrightarrow>
      initSchema d2 g1 w1 =
        (Inr s, g1, w1\<lparr>calls := calls w1 @ [EnsureDir (baseDir g0), ReadJSON (filePath g0)]\<rparr>))"
proof -
  have a: "files w (filePath g) = Some (Parsable d0) \<and> filePath g \<notin> unreadable w \<longrightarrow>
      files (snd (snd (initSchema d g w))) = files w \<and>
      (\<forall>c \<in> set (drop (length (calls w)) (calls (snd (snd (initSchema d g w))))).
          c = EnsureDir (baseDir g) \<or> c = ReadJSON (filePath g)) \<and>
      (baseDir g \<in> dirs w \<longrightarrow>
         initSchema d g w =
           (Inr (SchemaFolder_new d0), g\<lparr>schema := Some (SchemaFolder_new d0)\<rparr>,
            w\<lparr>calls := calls w @ [EnsureDir (baseDir g), ReadJSON (filePath g)]\<rparr>))"
    by (auto simp: initSchema_parsable insert_absorb)
  have b: "initSchema d2 g1 w1 =
        (Inr s, g1, w1\<lparr>calls := calls w1 @ [EnsureDir (baseDir g0), ReadJSON (filePath g0)]\<rparr>)"
    if first: "initSchema d1 g0 w0 = (Inr s, g1, w1)" and readable: "filePath g0 \<notin> unreadable w0"
  proof -
    have g1: "g1 = g0\<lparr>schema := Some s\<rparr>"
      using first by (rule initSchema_ok_gateway)
    from initSchema_ok_file [OF first]
    have f: "files w1 (filePath g1) = Some (Parsable s)" and dir: "baseDir g1 \<in> dirs w1"
      by simp_all
    have "unreadable w1 = unreadable w0"
      using initSchema_unreadable_kept [of d1 g0 w0] first by simp
    with readable g1 have r: "filePath g1 \<notin> unreadable w1" by simp
    have "initSchema d2 g1 w1 =
        (Inr s, g1\<lparr>schema := Some s\<rparr>,
         w1\<lparr>calls := calls w1 @ [EnsureDir (baseDir g1), ReadJSON (filePath g1)]\<rparr>)"
      using dir by (simp add: initSchema_parsable [OF f r] insert_absorb SchemaFolder_new_def)
    then show ?thesis by (simp add: g1)
  qed
  from a b show ?thesis by blast
qed

theorem initSchema_keeps_valid_file_witness:
  "files populated_world (filePath guilds_gateway) = Some (Parsable nested_schema) \<and>
   filePath guilds_gateway \<notin> unreadable populated_world \<and>
   baseDir guilds_gateway \<in> dirs populated_world \<and>
   initSchema guilds_schema guilds_gateway populated_world =
     (Inr nested_schema, guilds_gateway\<lparr>schema := Some nested_schema\<rparr>,
      populated_world\<lparr>calls := [EnsureDir ''/app/bwd'', ReadJSON ''/app/bwd/guilds_Schema.json'']\<rparr>) \<and>
   files (snd (snd (initSchema guilds_schema guilds_gateway populated_world))) = files populated_world \<and>
   list_all (\<lambda>c. c = EnsureDir ''/app/bwd'' \<or> c = ReadJSON ''/app/bwd/guilds_Schema.json'')
     (drop (length (calls populated_world))
        (calls (snd (snd (initSchema guilds_schema guilds_gateway populated_world))))) \<and>
   filePath guilds_gateway \<notin> unreadable empty_world \<and>
   fst (initSchema nested_schema
          (fst (snd (initSchema guilds_schema guilds_gateway empty_world)))
          (snd (snd (initSchema guilds_schema guilds_gateway empty_world)))) = Inr guilds_schema \<and>
   files (snd (snd (initSchema nested_schema
          (fst (snd (initSchema guilds_schema guilds_gateway empty_world)))
          (snd (snd (initSchema guilds_schema guilds_gateway empty_world)))))) =
     [''/app/bwd/guilds_Schema.json'' \<mapsto> Parsable guilds_schema]"
proof -
  have f: "files populated_world (filePath guilds_gateway) = Some (Parsable nested_schema)"
    by (simp add: scenario_defs Let_def)
  have r: "filePath guilds_gateway \<notin> unreadable populated_world"
    by (simp add: scenario_defs Let_def)
  have r0: "filePath guilds_gateway \<notin> unreadable empty_world"
    by (simp add: scenario_defs Let_def)
  have dir: "baseDir guilds_gateway \<in> dirs populated_world"
    by (simp add: scenario_defs Let_def)
  have paths: "baseDir guilds_gateway = ''/app/bwd''"
    "filePath guilds_gateway = ''/app/bwd/guilds_Schema.json''"
    by (simp_all add: scenario_defs Let_def)
  have first: "initSchema guilds_schema guilds_gateway empty_world =
      (Inr guilds_schema, guilds_gateway\<lparr>schema := Some guilds_schema\<rparr>,
       empty_world\<lparr>dirs := {''/app/bwd''},
         files := [''/app/bwd/guilds_Schema.json'' \<mapsto> Parsable guilds_schema],
         calls := [EnsureDir ''/app/bwd'', ReadJSON ''/app/bwd/guilds_Schema.json'',
                   OutputJSONAtomic ''/app/bwd/guilds_Schema.json'' guilds_schema]\<rparr>)"
    by (simp add: effect_defs example_client_def guilds_gateway_def empty_world_def
        GatewayStorage_new_def resolve_def)
  have nocalls: "calls populated_world = []"
    by (simp add: populated_world_def empty_world_def)
  note both = initSchema_keeps_valid_file [where w = populated_world and g = guilds_gateway
        and ?d0.0 = nested_schema and d = guilds_schema and ?d1.0 = guilds_schema
        and ?g0.0 = guilds_gateway and ?w0.0 = empty_world and s = guilds_schema
        and ?g1.0 = "guilds_gateway\<lparr>schema := Some guilds_schema\<rparr>"
        and ?w1.0 = "empty_world\<lparr>dirs := {''/app/bwd''},
         files := [''/app/bwd/guilds_Schema.json'' \<mapsto> Parsable guilds_schema],
         calls := [EnsureDir ''/app/bwd'', ReadJSON ''/app/bwd/guilds_Schema.json'',
                   OutputJSONAtomic ''/app/bwd/guilds_Schema.json'' guilds_schema]\<rparr>"
        and ?d2.0 = nested_schema]
  note kept = both [THEN conjunct1, THEN mp, OF conjI [OF f r]]
  note again = both [THEN conjunct2, THEN mp, OF conjI [OF first r0]]
  show ?thesis
    using f r r0 dir kept again
    by (simp add: first paths nocalls SchemaFolder_new_def list_all_iff)
qed

text \<open>
  C9 as stated fails: a definition file with valid content whose read is
  refused is answered like a missing one. The schema bootstrap overwrites it
  with the default, so its content changes from the nested schema to the
  default schema, and the tree is built from the default.
\<close>

theorem initSchema_overwrites_unread_file_counterexample:
  "\<not> (files unreadable_world (filePath guilds_gateway) = Some (Parsable nested_schema) \<and>
        baseDir guilds_gateway \<in> dirs unreadable_world \<longrightarrow>
        files (snd (snd (initSchema guilds_schema guilds_gateway unreadable_world)))
          (filePath guilds_gateway) =
        files unreadable_world (filePath guilds_gateway))"
  by (simp add: effect_defs scenario_defs)

text \<open>
  C10. Where the schema tree's default-value mapping has a key \<open>default\<close> of
  its own, \<open>defaults\<close> binds \<open>default\<close> to \<open>true\<close> whatever the schema declared,
  every other key keeps its schema-declared default, and no key is added.
\<close>

theorem defaults_shadows_default_key:
  "schema g = Some s \<Longrightarrow> map_of (SchemaFolder_defaults s) ''default'' = Some v \<Longrightarrow>
     (\<exists>obj. defaults g = Inr obj \<and>
        map_of obj ''default'' = Some (JBool True) \<and>
        (\<forall>k. k \<noteq> ''default'' \<longrightarrow> map_of obj k = map_of (SchemaFolder_defaults s) k) \<and>
        map fst obj = map fst (SchemaFolder_defaults s))"
proof -
  assume s: "schema g = Some s" and v: "map_of (SchemaFolder_defaults s) ''default'' = Some v"
  from v have "''default'' \<in> fst ` set (SchemaFolder_defaults s)"
    by (metis map_of_eq_None_iff option.distinct(1))
  then have "map fst (obj_set ''default'' (JBool True) (SchemaFolder_defaults s)) =
      map fst (SchemaFolder_defaults s)"
    by (rule obj_set_keys_present)
  then show ?thesis
    using s by (simp add: defaults_eq obj_set_lookup)
qed

theorem defaults_shadows_default_key_witness:
  "schema (guilds_gateway\<lparr>schema := Some nested_schema\<rparr>) = Some nested_schema \<and>
   map_of (SchemaFolder_defaults nested_schema) ''default'' = Some (JBool False) \<and>
   (\<exists>obj. defaults (guilds_gateway\<lparr>schema := Some nested_schema\<rparr>) = Inr obj \<and>
      map_of obj ''default'' = Some (JBool True) \<and>
      map_of obj ''prefix'' = Some (JStr ''!'') \<and>
      map fst obj = [''prefix'', ''roles'', ''default''])"
proof -
  have s: "schema (guilds_gateway\<lparr>schema := Some nested_schema\<rparr>) = Some nested_schema"
    by simp
  have v: "map_of (SchemaFolder_defaults nested_schema) ''default'' = Some (JBool False)"
    by (simp add: nested_schema_def obj_set_def)
  have p: "map_of (SchemaFolder_defaults nested_schema) ''prefix'' = Some (JStr ''!'')"
    by (simp add: nested_schema_def obj_set_def)
  have k: "map fst (SchemaFolder_defaults nested_schema) = [''prefix'', ''roles'', ''default'']"
    by (simp add: nested_schema_def obj_set_def)
  from defaults_shadows_default_key [OF s v] obtain obj where
    "defaults (guilds_gateway\<lparr>schema := Some nested_schema\<rparr>) = Inr obj"
    "map_of obj ''default'' = Some (JBool True)"
    "\<forall>k. k \<noteq> ''default'' \<longrightarrow> map_of obj k = map_of (SchemaFolder_defaults nested_schema) k"
    "map fst obj = map fst (SchemaFolder_defaults nested_schema)"
    by blast
  with s v p k show ?thesis by simp
qed

end
